theory Spec2Isabelle
  imports Complex_Main "HOL-Library.Char_ord"
begin

section \<open>JavaScript numbers\<close>

text \<open>
  The values of the JavaScript type \<open>number\<close> that the timeline code computes with.
  \<open>NaN\<close> and the two infinities are values of their own, because the code reaches them
  (\<open>parseFloat("abc")\<close>, a division by zero). A finite number is the real it denotes:
  arithmetic on finite numbers is exact here, so the rounding of binary64 results and the
  sign of zero are outside the model.
\<close>

datatype jsnum = NaN | NegInf | Fin real | PosInf

definition sgnInf :: "real \<Rightarrow> jsnum" where
  "sgnInf s = (if s = 0 then NaN else if 0 < s then PosInf else NegInf)"

fun jneg :: "jsnum \<Rightarrow> jsnum" where
  "jneg NaN = NaN"
| "jneg NegInf = PosInf"
| "jneg PosInf = NegInf"
| "jneg (Fin a) = Fin (- a)"

fun jadd :: "jsnum \<Rightarrow> jsnum \<Rightarrow> jsnum" where
  "jadd (Fin a) (Fin b) = Fin (a + b)"
| "jadd NaN _ = NaN"
| "jadd _ NaN = NaN"
| "jadd PosInf NegInf = NaN"
| "jadd NegInf PosInf = NaN"
| "jadd PosInf _ = PosInf"
| "jadd _ PosInf = PosInf"
| "jadd NegInf _ = NegInf"
| "jadd _ NegInf = NegInf"

definition jsub :: "jsnum \<Rightarrow> jsnum \<Rightarrow> jsnum" where
  "jsub a b = jadd a (jneg b)"

fun jmul :: "jsnum \<Rightarrow> jsnum \<Rightarrow> jsnum" where
  "jmul (Fin a) (Fin b) = Fin (a * b)"
| "jmul NaN _ = NaN"
| "jmul _ NaN = NaN"
| "jmul PosInf (Fin b) = sgnInf b"
| "jmul (Fin a) PosInf = sgnInf a"
| "jmul NegInf (Fin b) = sgnInf (- b)"
| "jmul (Fin a) NegInf = sgnInf (- a)"
| "jmul PosInf PosInf = PosInf"
| "jmul NegInf NegInf = PosInf"
| "jmul PosInf NegInf = NegInf"
| "jmul NegInf PosInf = NegInf"

fun jdiv :: "jsnum \<Rightarrow> jsnum \<Rightarrow> jsnum" where
  "jdiv (Fin a) (Fin b) = (if b = 0 then sgnInf a else Fin (a / b))"
| "jdiv NaN _ = NaN"
| "jdiv _ NaN = NaN"
| "jdiv (Fin a) PosInf = Fin 0"
| "jdiv (Fin a) NegInf = Fin 0"
| "jdiv PosInf (Fin b) = (if 0 \<le> b then PosInf else NegInf)"
| "jdiv NegInf (Fin b) = (if 0 \<le> b then NegInf else PosInf)"
| "jdiv PosInf PosInf = NaN"
| "jdiv PosInf NegInf = NaN"
| "jdiv NegInf PosInf = NaN"
| "jdiv NegInf NegInf = NaN"

text \<open>The comparisons \<open><=\<close> and \<open><\<close>: every comparison with \<open>NaN\<close> is false.\<close>

fun jle :: "jsnum \<Rightarrow> jsnum \<Rightarrow> bool" where
  "jle NaN _ = False"
| "jle _ NaN = False"
| "jle NegInf _ = True"
| "jle _ PosInf = True"
| "jle (Fin a) (Fin b) = (a \<le> b)"
| "jle _ _ = False"

fun jlt :: "jsnum \<Rightarrow> jsnum \<Rightarrow> bool" where
  "jlt NaN _ = False"
| "jlt _ NaN = False"
| "jlt (Fin a) (Fin b) = (a < b)"
| "jlt PosInf _ = False"
| "jlt _ NegInf = False"
| "jlt _ _ = True"

definition jge :: "jsnum \<Rightarrow> jsnum \<Rightarrow> bool" where
  "jge a b = jle b a"

definition jgt :: "jsnum \<Rightarrow> jsnum \<Rightarrow> bool" where
  "jgt a b = jlt b a"

text \<open>\<open>Math.min\<close> and \<open>Math.max\<close> of two arguments, and \<open>Math.max(...xs)\<close>.\<close>

definition Math_min :: "jsnum \<Rightarrow> jsnum \<Rightarrow> jsnum" where
  "Math_min a b = (if a = NaN \<or> b = NaN then NaN else if jle a b then a else b)"

definition Math_max :: "jsnum \<Rightarrow> jsnum \<Rightarrow> jsnum" where
  "Math_max a b = (if a = NaN \<or> b = NaN then NaN else if jle a b then b else a)"

definition Math_max_list :: "jsnum list \<Rightarrow> jsnum" where
  "Math_max_list xs = foldl Math_max NegInf xs"

text \<open>\<open>Math.round\<close> rounds to the nearest integer, a half upwards; \<open>Math.floor\<close>.\<close>

fun Math_round :: "jsnum \<Rightarrow> jsnum" where
  "Math_round (Fin a) = Fin (of_int \<lfloor>a + 1 / 2\<rfloor>)"
| "Math_round x = x"

fun Math_floor :: "jsnum \<Rightarrow> jsnum" where
  "Math_floor (Fin a) = Fin (of_int \<lfloor>a\<rfloor>)"
| "Math_floor x = x"

section \<open>Strings to numbers\<close>

text \<open>
  Strings are lists of 8-bit characters. White space is the ASCII white space that
  \<open>parseInt\<close>, \<open>parseFloat\<close> and \<open>trim\<close> strip (tab, line feed, vertical tab, form feed,
  carriage return, space).
\<close>

definition isWhite :: "char \<Rightarrow> bool" where
  "isWhite c = ((of_char c :: nat) \<in> {9, 10, 11, 12, 13, 32})"

definition isDigit :: "char \<Rightarrow> bool" where
  "isDigit c = (CHR ''0'' \<le> c \<and> c \<le> CHR ''9'')"

definition isHexDigit :: "char \<Rightarrow> bool" where
  "isHexDigit c = (isDigit c \<or> (CHR ''a'' \<le> c \<and> c \<le> CHR ''f'') \<or> (CHR ''A'' \<le> c \<and> c \<le> CHR ''F''))"

definition digitVal :: "char \<Rightarrow> nat" where
  "digitVal c =
     (if isDigit c then of_char c - 48
      else if CHR ''a'' \<le> c \<and> c \<le> CHR ''f'' then of_char c - 87
      else of_char c - 55)"

definition digitsVal :: "nat \<Rightarrow> string \<Rightarrow> nat" where
  "digitsVal radix ds = foldl (\<lambda>acc c. acc * radix + digitVal c) 0 ds"

definition trim :: "string \<Rightarrow> string" where
  "trim s = rev (dropWhile isWhite (rev (dropWhile isWhite s)))"

text \<open>\<open>s.split(sep)\<close> for a one-character separator: never the empty array.\<close>

fun str_split :: "char \<Rightarrow> string \<Rightarrow> string list" where
  "str_split sep [] = [[]]"
| "str_split sep (c # cs) =
     (if c = sep then [] # str_split sep cs
      else (case str_split sep cs of
              p # ps \<Rightarrow> (c # p) # ps
            | [] \<Rightarrow> [[c]]))"

text \<open>An optional sign in front of a numeral: whether it is negative, and the rest.\<close>

definition takeSign :: "string \<Rightarrow> bool \<times> string" where
  "takeSign s =
     (case s of
        [] \<Rightarrow> (False, [])
      | c # r \<Rightarrow> if c = CHR ''-'' then (True, r)
                 else if c = CHR ''+'' then (False, r)
                 else (False, s))"

definition signed :: "bool \<Rightarrow> real \<Rightarrow> jsnum" where
  "signed neg v = Fin (if neg then - v else v)"

text \<open>
  \<open>parseInt(s)\<close> with no radix: leading white space, a sign, a \<open>0x\<close> prefix for base 16,
  then the longest run of digits; \<open>NaN\<close> when that run is empty.
\<close>

definition parseInt :: "string \<Rightarrow> jsnum" where
  "parseInt str =
     (let (neg, s) = takeSign (dropWhile isWhite str);
          hex = (take 2 s = ''0x'' \<or> take 2 s = ''0X'');
          z = (if hex then takeWhile isHexDigit (drop 2 s) else takeWhile isDigit s)
      in if z = [] then NaN
         else signed neg (real (digitsVal (if hex then 16 else 10) z)))"

definition pow10 :: "int \<Rightarrow> real" where
  "pow10 e = (if 0 \<le> e then 10 ^ nat e else 1 / 10 ^ nat (- e))"

text \<open>The exponent part \<open>e[+-]digits\<close> of a decimal literal; 0 when there is none.\<close>

definition exponentPart :: "string \<Rightarrow> int" where
  "exponentPart s =
     (case s of
        [] \<Rightarrow> 0
      | c # r \<Rightarrow>
          if c = CHR ''e'' \<or> c = CHR ''E'' then
            (let (neg, ds) = takeSign r; z = takeWhile isDigit ds
             in if z = [] then 0
                else if neg then - int (digitsVal 10 z) else int (digitsVal 10 z))
          else 0)"

text \<open>
  \<open>parseFloat(s)\<close>: leading white space, a sign, then \<open>Infinity\<close> or the longest prefix
  that is a decimal literal (digits, a point, digits, an exponent); \<open>NaN\<close> when there is
  no digit before or after the point. A literal beyond the range of binary64 stays the
  finite number it denotes.
\<close>

definition parseFloat :: "string \<Rightarrow> jsnum" where
  "parseFloat str =
     (let (neg, s) = takeSign (dropWhile isWhite str)
      in if take 8 s = ''Infinity'' then (if neg then NegInf else PosInf)
         else
           (let ip = takeWhile isDigit s;
                r1 = dropWhile isDigit s;
                hasPoint = (r1 \<noteq> [] \<and> hd r1 = CHR ''.'');
                fp = (if hasPoint then takeWhile isDigit (tl r1) else []);
                r2 = (if hasPoint then dropWhile isDigit (tl r1) else r1)
            in if ip = [] \<and> fp = [] then NaN
               else signed neg
                      ((real (digitsVal 10 ip) + real (digitsVal 10 fp) / 10 ^ length fp)
                       * pow10 (exponentPart r2))))"

section \<open>The time parsing rule\<close>

text \<open>
  \<open>parseTime\<close> of the timeline component. \<open>parts ! 0\<close> always exists, since \<open>split\<close>
  returns at least one part.
\<close>

definition parseTime :: "string \<Rightarrow> jsnum" where
  "parseTime timeStr =
     (if timeStr = [] then Fin 0
      else
        (let parts = str_split (CHR '':'') timeStr;
             seconds =
               (if length parts = 3 then
                  jadd (jadd (jmul (parseInt (parts ! 0)) (Fin 3600))
                             (jmul (parseInt (parts ! 1)) (Fin 60)))
                       (parseFloat (parts ! 2))
                else if length parts = 2 then
                  jadd (jmul (parseInt (parts ! 0)) (Fin 60)) (parseFloat (parts ! 1))
                else parseFloat (parts ! 0))
         in Math_round (jmul seconds (Fin 1000))))"

section \<open>The document tree\<close>

text \<open>
  The tree that \<open>DOMParser.parseFromString(ttml, "text/xml")\<close> hands to the component:
  elements with their local name, their attributes (qualified name and value) and their
  child nodes in document order; text, CDATA and comment nodes.
\<close>

type_synonym attrs = "(string \<times> string) list"

datatype node =
    Element string attrs "node list"
  | TextNode string
  | CDataNode string
  | CommentNode string

text \<open>An ancestor as the code looks at it from below: local name and attributes.\<close>

type_synonym ehead = "string \<times> attrs"

fun localName :: "node \<Rightarrow> string" where
  "localName (Element n a cs) = n"
| "localName _ = []"

fun attributes :: "node \<Rightarrow> attrs" where
  "attributes (Element n a cs) = a"
| "attributes _ = []"

fun childNodes :: "node \<Rightarrow> node list" where
  "childNodes (Element n a cs) = cs"
| "childNodes _ = []"

text \<open>\<open>el.getAttribute(name)\<close>: \<open>None\<close> is \<open>null\<close>.\<close>

definition getAttribute :: "attrs \<Rightarrow> string \<Rightarrow> string option" where
  "getAttribute a name = map_of a name"

text \<open>\<open>v || ""\<close> and \<open>v || undefined\<close> on the result of \<open>getAttribute\<close>.\<close>

fun orEmpty :: "string option \<Rightarrow> string" where
  "orEmpty None = []"
| "orEmpty (Some v) = v"

fun orUndefined :: "string option \<Rightarrow> string option" where
  "orUndefined None = None"
| "orUndefined (Some v) = (if v = [] then None else Some v)"

text \<open>
  \<open>textContent\<close>: the text and CDATA of all descendants in document order; comments
  inside an element do not count.
\<close>

fun textContent :: "node \<Rightarrow> string" and textContentL :: "node list \<Rightarrow> string" where
  "textContent (Element n a cs) = textContentL cs"
| "textContent (TextNode s) = s"
| "textContent (CDataNode s) = s"
| "textContent (CommentNode s) = s"
| "textContentL [] = []"
| "textContentL (CommentNode s # cs) = textContentL cs"
| "textContentL (c # cs) = textContent c @ textContentL cs"

text \<open>
  The elements of a subtree in document order, each with its chain of ancestors inside
  the subtree, the parent first. \<open>elems anc n\<close> starts from a node whose ancestors are
  \<open>anc\<close>; \<open>elemsL\<close> does the same for a list of siblings.
\<close>

fun elems :: "ehead list \<Rightarrow> node \<Rightarrow> (ehead list \<times> node) list"
  and elemsL :: "ehead list \<Rightarrow> node list \<Rightarrow> (ehead list \<times> node) list" where
  "elems anc (Element n a cs) = (anc, Element n a cs) # elemsL ((n, a) # anc) cs"
| "elems anc (TextNode s) = []"
| "elems anc (CDataNode s) = []"
| "elems anc (CommentNode s) = []"
| "elemsL anc [] = []"
| "elemsL anc (c # cs) = elems anc c @ elemsL anc cs"

text \<open>
  The three selectors of the component. \<open>doc.querySelectorAll\<close> ranges over every
  element of the document, the root included; \<open>el.querySelectorAll\<close> over the
  descendants of \<open>el\<close>, with ancestor chains that stop below \<open>el\<close>.
\<close>

definition descendants :: "node \<Rightarrow> (ehead list \<times> node) list" where
  "descendants el = elemsL [] (childNodes el)"

definition isTimedSpan :: "node \<Rightarrow> bool" where
  "isTimedSpan el = (localName el = ''span'' \<and> getAttribute (attributes el) ''begin'' \<noteq> None)"

definition isTranslitText :: "ehead list \<times> node \<Rightarrow> bool" where
  "isTranslitText ce = (localName (snd ce) = ''text'' \<and> ''transliteration'' \<in> fst ` set (fst ce))"

definition select_p :: "node \<Rightarrow> node list" where
  "select_p doc = filter (\<lambda>el. localName el = ''p'') (map snd (elems [] doc))"

definition select_translit_text :: "node \<Rightarrow> node list" where
  "select_translit_text doc = map snd (filter isTranslitText (elems [] doc))"

definition select_span_begin :: "node \<Rightarrow> (ehead list \<times> node) list" where
  "select_span_begin el = filter (\<lambda>ce. isTimedSpan (snd ce)) (descendants el)"

section \<open>The parser\<close>

record ParsedWord =
  wbegin :: jsnum
  wend :: jsnum
  wtext :: string
  isBackground :: "bool option"

record Translit =
  ttext :: string
  twords :: "ParsedWord list"

record ParsedLine =
  lbegin :: jsnum
  lend :: jsnum
  ltext :: string
  leadText :: string
  bgText :: string
  words :: "ParsedWord list"
  agent :: "string option"
  key :: "string option"
  transliteration :: "Translit option"

definition mkWord :: "node \<Rightarrow> bool option \<Rightarrow> ParsedWord" where
  "mkWord spanEl bg =
     \<lparr> wbegin = parseTime (orEmpty (getAttribute (attributes spanEl) ''begin'')),
       wend = parseTime (orEmpty (getAttribute (attributes spanEl) ''end'')),
       wtext = textContent spanEl,
       isBackground = bg \<rparr>"

text \<open>
  The loop \<open>while (parent && parent !== p)\<close> over the ancestors of a word, from its parent
  up to the paragraph, which the chain leaves out.
\<close>

fun ancestorIsBackground :: "ehead list \<Rightarrow> bool" where
  "ancestorIsBackground [] = False"
| "ancestorIsBackground (parent # up) =
     (if getAttribute (snd parent) ''ttm:role'' = Some ''x-bg'' then True
      else ancestorIsBackground up)"

definition lineWord :: "ehead list \<times> node \<Rightarrow> ParsedWord" where
  "lineWord cs =
     mkWord (snd cs) (if ancestorIsBackground (fst cs) then Some True else None)"

text \<open>\<open>collectText\<close>: the accumulator is the pair \<open>(leadText, bgText)\<close>.\<close>

fun collectText :: "node \<Rightarrow> bool \<Rightarrow> string \<times> string \<Rightarrow> string \<times> string"
  and collectTextL :: "node list \<Rightarrow> bool \<Rightarrow> string \<times> string \<Rightarrow> string \<times> string" where
  "collectText (Element n a cs) inBackground acc = collectTextL cs inBackground acc"
| "collectText (TextNode s) inBackground acc = acc"
| "collectText (CDataNode s) inBackground acc = acc"
| "collectText (CommentNode s) inBackground acc = acc"
| "collectTextL [] inBackground acc = acc"
| "collectTextL (TextNode s # cs) inBackground acc =
     collectTextL cs inBackground
       (if inBackground then (fst acc, snd acc @ s) else (fst acc @ s, snd acc))"
| "collectTextL (Element n a cs' # cs) inBackground acc =
     collectTextL cs inBackground
       (collectText (Element n a cs')
          (inBackground \<or> getAttribute a ''ttm:role'' = Some ''x-bg'') acc)"
| "collectTextL (c # cs) inBackground acc = collectTextL cs inBackground acc"

definition translitEntry :: "node \<Rightarrow> Translit" where
  "translitEntry textEl =
     \<lparr> ttext = textContent textEl,
       twords = map (\<lambda>cs. mkWord (snd cs) None) (select_span_begin textEl) \<rparr>"

definition addTranslit :: "(string \<rightharpoonup> Translit) \<Rightarrow> node \<Rightarrow> (string \<rightharpoonup> Translit)" where
  "addTranslit m textEl =
     (case getAttribute (attributes textEl) ''for'' of
        None \<Rightarrow> m
      | Some forKey \<Rightarrow> if forKey = [] then m else m(forKey \<mapsto> translitEntry textEl))"

definition transliterationMap :: "node \<Rightarrow> (string \<rightharpoonup> Translit)" where
  "transliterationMap doc = foldl addTranslit Map.empty (select_translit_text doc)"

definition lineOf :: "(string \<rightharpoonup> Translit) \<Rightarrow> node \<Rightarrow> ParsedLine" where
  "lineOf tm p =
     (let texts = collectText p False ([], [])
      in \<lparr> lbegin = parseTime (orEmpty (getAttribute (attributes p) ''begin'')),
           lend = parseTime (orEmpty (getAttribute (attributes p) ''end'')),
           ltext = textContent p,
           leadText = trim (fst texts),
           bgText = trim (snd texts),
           words = map lineWord (select_span_begin p),
           agent = orUndefined (getAttribute (attributes p) ''ttm:agent''),
           key = orUndefined (getAttribute (attributes p) ''itunes:key''),
           transliteration =
             (case orUndefined (getAttribute (attributes p) ''itunes:key'') of
                None \<Rightarrow> None
              | Some k \<Rightarrow> tm k) \<rparr>)"

text \<open>
  The platform's XML parser is a parameter: it throws, or it returns the document
  element of the tree it built (for text that is not well-formed, whatever error document
  the platform builds). \<open>parseTTML_try\<close> is the body of the \<open>try\<close> block, \<open>parseTTML\<close> the
  function with its \<open>catch\<close>.
\<close>

datatype exn = Thrown string

definition parseTTML_try :: "(string \<Rightarrow> exn + node) \<Rightarrow> string \<Rightarrow> exn + ParsedLine list" where
  "parseTTML_try parseFromString ttml =
     (case parseFromString ttml of
        Inl e \<Rightarrow> Inl e
      | Inr doc \<Rightarrow> Inr (map (lineOf (transliterationMap doc)) (select_p doc)))"

definition parseTTML :: "(string \<Rightarrow> exn + node) \<Rightarrow> string \<Rightarrow> ParsedLine list" where
  "parseTTML parseFromString ttml =
     (case parseTTML_try parseFromString ttml of
        Inl e \<Rightarrow> []
      | Inr ls \<Rightarrow> ls)"

section \<open>The timeline\<close>

text \<open>
  The state of the \<open>Timeline\<close> component: the parsed lines, the values of its \<open>useState\<close>
  hooks and of its refs. \<open>timelineRef\<close> is the bounding rectangle of the track element
  when that element is mounted (it is not when there are no lines), \<open>None\<close> otherwise. An
  event handler maps the state of the render that created it to the next state.
\<close>

record DOMRect =
  rect_left :: jsnum
  rect_width :: jsnum

record Timeline =
  lines :: "ParsedLine list"
  scrubPosition :: "jsnum option"
  selectedLine :: "nat option"
  zoom :: jsnum
  panOffset :: jsnum
  isDragging :: bool
  dragStartRef :: "jsnum \<times> jsnum"
  didDragRef :: bool
  timelineRef :: "DOMRect option"

definition totalDuration :: "Timeline \<Rightarrow> jsnum" where
  "totalDuration st = (if lines st = [] then Fin 0 else Math_max_list (map lend (lines st)))"

definition visibleDuration :: "Timeline \<Rightarrow> jsnum" where
  "visibleDuration st = jdiv (totalDuration st) (zoom st)"

definition maxPanOffset :: "Timeline \<Rightarrow> jsnum" where
  "maxPanOffset st = Math_max (Fin 0) (jsub (totalDuration st) (visibleDuration st))"

definition timeToPosition :: "Timeline \<Rightarrow> jsnum \<Rightarrow> jsnum" where
  "timeToPosition st time =
     jmul (jdiv (jsub time (panOffset st)) (visibleDuration st)) (Fin 100)"

subsection \<open>Gridlines\<close>

definition markerInterval :: "Timeline \<Rightarrow> jsnum" where
  "markerInterval st =
     (if jge (zoom st) (Fin 4) then Fin 10000
      else if jge (zoom st) (Fin 2) then Fin 30000
      else if jle (totalDuration st) (Fin 180000) then Fin 30000
      else Fin 60000)"

text \<open>
  The loop \<open>for (let i = startTime; i <= endTime + interval; i += interval)\<close>. It does not
  end when its bound is infinite, so its result is an option: \<open>None\<close> is a loop that runs
  forever.
\<close>

partial_function (option) markersLoop ::
  "jsnum \<Rightarrow> jsnum \<Rightarrow> jsnum \<Rightarrow> jsnum \<Rightarrow> jsnum list \<Rightarrow> jsnum list option" where
  "markersLoop i endTime interval totalDur markers =
     (if jle i (jadd endTime interval) then
        markersLoop (jadd i interval) endTime interval totalDur
          (if jge i (Fin 0) \<and> jle i totalDur then markers @ [i] else markers)
      else Some markers)"

declare markersLoop.simps [code]

definition timeMarkers :: "Timeline \<Rightarrow> jsnum list option" where
  "timeMarkers st =
     (let interval = markerInterval st;
          startTime = jmul (Math_floor (jdiv (panOffset st) interval)) interval;
          endTime = jadd (panOffset st) (visibleDuration st)
      in markersLoop startTime endTime interval (totalDuration st) [])"

text \<open>The rendering places each marker at \<open>timeToPosition(time)\<close> percent.\<close>

definition markerPositions :: "Timeline \<Rightarrow> jsnum list option" where
  "markerPositions st = map_option (map (timeToPosition st)) (timeMarkers st)"

subsection \<open>Pointer events\<close>

text \<open>\<open>findIndex\<close>: \<open>None\<close> is the result \<open>-1\<close>.\<close>

fun findIndex :: "('a \<Rightarrow> bool) \<Rightarrow> 'a list \<Rightarrow> nat option" where
  "findIndex P [] = None"
| "findIndex P (x # xs) = (if P x then Some 0 else map_option Suc (findIndex P xs))"

text \<open>
  \<open>handleTimelineClick\<close>, for a click at \<open>clientX\<close>. Scrolling the selected line into view
  changes no state.
\<close>

definition handleTimelineClick :: "Timeline \<Rightarrow> jsnum \<Rightarrow> Timeline" where
  "handleTimelineClick st clientX =
     (case timelineRef st of
        None \<Rightarrow> st
      | Some rect \<Rightarrow>
          if totalDuration st = Fin 0 \<or> isDragging st \<or> didDragRef st then st
          else
            (let x = jsub clientX (rect_left rect);
                 percentage = jdiv x (rect_width rect);
                 time = jadd (panOffset st) (jmul percentage (visibleDuration st));
                 clampedTime = Math_max (Fin 0) (Math_min (totalDuration st) time);
                 lineIndex = findIndex (\<lambda>line. jge clampedTime (lbegin line) \<and>
                                                jle clampedTime (lend line)) (lines st)
             in (case lineIndex of
                   None \<Rightarrow> st\<lparr>scrubPosition := Some clampedTime\<rparr>
                 | Some i \<Rightarrow> st\<lparr>scrubPosition := Some clampedTime, selectedLine := Some i\<rparr>)))"

text \<open>\<open>handleWheel\<close>, for a wheel event at \<open>clientX\<close> with vertical delta \<open>deltaY\<close>.\<close>

definition handleWheel :: "Timeline \<Rightarrow> jsnum \<Rightarrow> jsnum \<Rightarrow> Timeline" where
  "handleWheel st clientX deltaY =
     (case timelineRef st of
        None \<Rightarrow> st
      | Some rect \<Rightarrow>
          (let mouseX = jsub clientX (rect_left rect);
               mousePercentage = jdiv mouseX (rect_width rect);
               mouseTime = jadd (panOffset st) (jmul mousePercentage (visibleDuration st));
               zoomDelta = (if jgt deltaY (Fin 0) then Fin 0.8 else Fin 1.25);
               newZoom = Math_max (Fin 1) (Math_min (Fin 20) (jmul (zoom st) zoomDelta));
               newVisibleDuration = jdiv (totalDuration st) newZoom;
               newPanOffset =
                 Math_max (Fin 0)
                   (Math_min (jsub (totalDuration st) newVisibleDuration)
                             (jsub mouseTime (jmul mousePercentage newVisibleDuration)))
           in st\<lparr>zoom := newZoom, panOffset := newPanOffset\<rparr>))"

text \<open>\<open>handleMouseDown\<close>, the start of a drag at \<open>clientX\<close>.\<close>

definition handleMouseDown :: "Timeline \<Rightarrow> jsnum \<Rightarrow> Timeline" where
  "handleMouseDown st clientX =
     (if jle (zoom st) (Fin 1) then st
      else st\<lparr>isDragging := True, didDragRef := False,
              dragStartRef := (clientX, panOffset st)\<rparr>)"

section \<open>The time parsing rule as the specification words it\<close>



text \<open>
  The time under the pointer at a fraction of the track width, as the click and wheel
  handlers compute it: the inverse of \<open>timeToPosition\<close> up to the factor 100.
\<close>

definition positionToTime :: "Timeline \<Rightarrow> jsnum \<Rightarrow> jsnum" where
  "positionToTime st percentage = jadd (panOffset st) (jmul percentage (visibleDuration st))"

text \<open>
  The gridline times as the specification words them: a multiple of the marker interval
  that falls within \<open>[panOffset, panOffset + visibleDuration]\<close> or is the one trailing
  multiple after it, that is, within the window extended by one interval on the right.
\<close>

definition spec_isMarker :: "Timeline \<Rightarrow> jsnum \<Rightarrow> bool" where
  "spec_isMarker st m =
     (case (m, markerInterval st) of
        (Fin t, Fin iv) \<Rightarrow>
          of_int \<lfloor>t / iv\<rfloor> * iv = t \<and>
          jle (panOffset st) m \<and>
          jle m (jadd (jadd (panOffset st) (visibleDuration st)) (Fin iv))
      | _ \<Rightarrow> False)"

text \<open>
  Positions in a tree, to say what an ancestor is: \<open>nodeAt n path\<close> is the node reached
  from \<open>n\<close> along a path of child indices, and \<open>ancestorsAt n path\<close> lists the elements
  passed on the way, strictly between \<open>n\<close> and the node reached, the nearest first.
\<close>

fun isElement :: "node \<Rightarrow> bool" where
  "isElement (Element n a cs) = True"
| "isElement _ = False"

fun nodeAt :: "node \<Rightarrow> nat list \<Rightarrow> node option" where
  "nodeAt n [] = Some n"
| "nodeAt n (i # path) =
     (if i < length (childNodes n) then nodeAt (childNodes n ! i) path else None)"

fun ancestorsAt :: "node \<Rightarrow> nat list \<Rightarrow> ehead list" where
  "ancestorsAt n [] = []"
| "ancestorsAt n [i] = []"
| "ancestorsAt n (i # j # path) =
     ancestorsAt (childNodes n ! i) (j # path) @
     [(localName (childNodes n ! i), attributes (childNodes n ! i))]"

section \<open>Example documents and states\<close>

definition exampleParagraph :: node where
  "exampleParagraph =
     Element ''p'' [(''begin'', ''0''), (''end'', ''2.5''), (''itunes:key'', ''L1'')]
       [Element ''span'' [(''begin'', ''0''), (''end'', ''1'')] [TextNode ''he''],
        TextNode '' '',
        Element ''span'' [(''ttm:role'', ''x-bg'')]
          [Element ''span'' [(''begin'', ''1''), (''end'', ''2'')] [TextNode ''(oh)'']],
        Element ''span'' [(''begin'', ''2''), (''ttm:role'', ''x-bg'')] [TextNode ''x'']]"

definition exampleHead :: node where
  "exampleHead =
     Element ''head'' []
       [Element ''transliteration'' []
          [Element ''text'' [(''for'', ''L1'')]
             [Element ''span'' [(''begin'', ''0''), (''end'', ''1'')] [TextNode ''ha'']]]]"

definition exampleBody :: node where
  "exampleBody = Element ''body'' [] [Element ''div'' [] [exampleParagraph]]"

definition plainLine :: "real \<Rightarrow> real \<Rightarrow> ParsedLine" where
  "plainLine b e =
     \<lparr> lbegin = Fin b, lend = Fin e, ltext = [], leadText = [], bgText = [], words = [],
       agent = None, key = None, transliteration = None \<rparr>"

definition initialTimeline :: "ParsedLine list \<Rightarrow> DOMRect option \<Rightarrow> Timeline" where
  "initialTimeline ls track =
     \<lparr> lines = ls, scrubPosition = None, selectedLine = None, zoom = Fin 1, panOffset = Fin 0,
       isDragging = False, dragStartRef = (Fin 0, Fin 0), didDragRef = False,
       timelineRef = track \<rparr>"

section \<open>Facts about numbers and strings\<close>

lemma Math_max_Fin [simp]: "Math_max (Fin a) (Fin b) = Fin (max a b)"
  by (simp add: Math_max_def max_def)

lemma Math_min_Fin [simp]: "Math_min (Fin a) (Fin b) = Fin (min a b)"
  by (simp add: Math_min_def min_def)

lemma jsub_Fin [simp]: "jsub (Fin a) (Fin b) = Fin (a - b)"
  by (simp add: jsub_def)

lemma jge_Fin [simp]: "jge (Fin a) (Fin b) = (b \<le> a)"
  by (simp add: jge_def)

lemma jgt_Fin [simp]: "jgt (Fin a) (Fin b) = (b < a)"
  by (simp add: jgt_def)


lemma str_split_nonempty: "str_split sep s \<noteq> []"
  by (induction s) (auto split: list.splits)


lemmas parse_defs =
  parseTime_def parseInt_def parseFloat_def takeSign_def isWhite_def isDigit_def
  isHexDigit_def digitsVal_def digitVal_def signed_def exponentPart_def pow10_def

lemma words_lineOf: "words (lineOf tm p) = map lineWord (select_span_begin p)"
  by (simp add: lineOf_def Let_def)

lemma ancestorIsBackground_iff:
  "ancestorIsBackground c = (\<exists>h \<in> set c. getAttribute (snd h) ''ttm:role'' = Some ''x-bg'')"
  by (induction c) auto

lemma elemsL_append: "elemsL anc (xs @ ys) = elemsL anc xs @ elemsL anc ys"
  by (induction xs) auto

lemma foldl_addTranslit:
  "k \<noteq> [] \<Longrightarrow>
   foldl addTranslit m cs k =
     (case filter (\<lambda>c. getAttribute (attributes c) ''for'' = Some k) (rev cs) of
        [] \<Rightarrow> m k
      | c # _ \<Rightarrow> Some (translitEntry c))"
  by (induction cs rule: rev_induct) (auto simp: addTranslit_def split: option.splits)

lemma parseTTML_Inr:
  "parseFromString ttml = Inr doc \<Longrightarrow>
   parseTTML parseFromString ttml = map (lineOf (transliterationMap doc)) (select_p doc)"
  by (simp add: parseTTML_def parseTTML_try_def)

lemmas dom_defs =
  select_p_def select_translit_text_def select_span_begin_def descendants_def
  isTimedSpan_def isTranslitText_def getAttribute_def

lemma select_span_begin_example:
  "select_span_begin exampleParagraph =
     [([], Element ''span'' [(''begin'', ''0''), (''end'', ''1'')] [TextNode ''he'']),
      ([(''span'', [(''ttm:role'', ''x-bg'')])],
       Element ''span'' [(''begin'', ''1''), (''end'', ''2'')] [TextNode ''(oh)'']),
      ([], Element ''span'' [(''begin'', ''2''), (''ttm:role'', ''x-bg'')] [TextNode ''x''])]"
  by (simp add: exampleParagraph_def dom_defs)

lemma select_p_root:
  "select_p (Element n a cs) =
     (if n = ''p'' then [Element n a cs] else []) @
     filter (\<lambda>el. localName el = ''p'') (map snd (elemsL [(n, a)] cs))"
  by (simp add: select_p_def)

lemma select_translit_text_root:
  "select_translit_text (Element n a cs) = map snd (filter isTranslitText (elemsL [(n, a)] cs))"
  by (simp add: select_translit_text_def isTranslitText_def)

lemma transliterationMap_lookup:
  "k \<noteq> [] \<Longrightarrow>
   transliterationMap doc k =
     (case filter (\<lambda>c. getAttribute (attributes c) ''for'' = Some k) (rev (select_translit_text doc)) of
        [] \<Rightarrow> None
      | c # _ \<Rightarrow> Some (translitEntry c))"
  by (simp add: transliterationMap_def foldl_addTranslit)

lemma transliteration_lineOf:
  "getAttribute (attributes p) ''itunes:key'' = Some k \<Longrightarrow> k \<noteq> [] \<Longrightarrow>
   transliteration (lineOf tm p) = tm k"
  by (simp add: lineOf_def Let_def)

lemma select_p_example:
  "select_p (Element ''tt'' [] [exampleHead, exampleBody]) = [exampleParagraph]"
  "select_p (Element ''tt'' [] [exampleBody, exampleHead]) = [exampleParagraph]"
  by (simp_all add: exampleHead_def exampleBody_def exampleParagraph_def dom_defs)

lemma select_translit_text_example:
  "select_translit_text (Element ''tt'' [] [exampleHead, exampleBody]) =
     [Element ''text'' [(''for'', ''L1'')]
        [Element ''span'' [(''begin'', ''0''), (''end'', ''1'')] [TextNode ''ha'']]]"
  by (simp add: exampleHead_def exampleBody_def exampleParagraph_def dom_defs)


lemma findIndex_None_iff: "findIndex P xs = None \<longleftrightarrow> (\<forall>i < length xs. \<not> P (xs ! i))"
proof (induction xs)
  case Nil
  show ?case by simp
next
  case (Cons x xs)
  show ?case
  proof (cases "P x")
    case True
    then show ?thesis by auto
  next
    case False
    have "(\<forall>i < length (x # xs). \<not> P ((x # xs) ! i)) \<longleftrightarrow> (\<forall>i < length xs. \<not> P (xs ! i))"
      using False by (auto simp: nth_Cons split: nat.splits)
    with False Cons show ?thesis by simp
  qed
qed

lemma findIndex_first:
  "i < length xs \<Longrightarrow> P (xs ! i) \<Longrightarrow> (\<forall>j < i. \<not> P (xs ! j)) \<Longrightarrow> findIndex P xs = Some i"
proof (induction xs arbitrary: i)
  case Nil
  then show ?case by simp
next
  case (Cons x xs)
  show ?case
  proof (cases i)
    case 0
    with Cons.prems show ?thesis by simp
  next
    case (Suc k)
    with Cons.prems have nx: "\<not> P x" by auto
    from Suc Cons.prems have "k < length xs" "P (xs ! k)" "\<forall>j < k. \<not> P (xs ! j)"
      by auto
    then have "findIndex P xs = Some k" by (rule Cons.IH)
    with nx Suc show ?thesis by simp
  qed
qed

lemma totalDuration_update [simp]:
  "totalDuration (st\<lparr>scrubPosition := s\<rparr>) = totalDuration st"
  "totalDuration (st\<lparr>selectedLine := l\<rparr>) = totalDuration st"
  "totalDuration (st\<lparr>zoom := z\<rparr>) = totalDuration st"
  "totalDuration (st\<lparr>panOffset := p\<rparr>) = totalDuration st"
  by (simp_all add: totalDuration_def)

lemma click_ignored:
  "isDragging st \<or> didDragRef st \<or> totalDuration st = Fin 0 \<Longrightarrow> handleTimelineClick st clientX = st"
  by (auto simp: handleTimelineClick_def split: option.splits)

lemma click_effect:
  assumes "timelineRef st = Some rect"
    and "jdiv (jsub clientX (rect_left rect)) (rect_width rect) = Fin f"
    and "totalDuration st = Fin T" and "T \<noteq> 0"
    and "zoom st = Fin z" and "z \<noteq> 0" and "panOffset st = Fin p"
    and "\<not> isDragging st" and "\<not> didDragRef st"
    and "t = max 0 (min T (p + f * (T / z)))"
  shows "handleTimelineClick st clientX =
           (case findIndex (\<lambda>line. jle (lbegin line) (Fin t) \<and> jle (Fin t) (lend line)) (lines st) of
              None \<Rightarrow> st\<lparr>scrubPosition := Some (Fin t)\<rparr>
            | Some i \<Rightarrow> st\<lparr>scrubPosition := Some (Fin t), selectedLine := Some i\<rparr>)"
  using assms
  by (simp add: handleTimelineClick_def visibleDuration_def Let_def jge_def split: option.splits)

lemmas state_defs =
  initialTimeline_def plainLine_def totalDuration_def visibleDuration_def
  Math_max_list_def Math_max_def Math_min_def

lemma visibleDuration_update [simp]:
  "visibleDuration (st\<lparr>zoom := z, panOffset := p\<rparr>) = jdiv (totalDuration st) z"
  by (simp add: visibleDuration_def)

lemma wheel_effect:
  assumes ref: "timelineRef st = Some rect"
    and frac: "jdiv (jsub clientX (rect_left rect)) (rect_width rect) = Fin f"
    and T: "totalDuration st = Fin T" and z: "zoom st = Fin z" and z0: "z \<noteq> 0"
    and p: "panOffset st = Fin p"
    and z': "max 1 (min 20 (z * (if jgt deltaY (Fin 0) then 0.8 else 1.25))) = z'"
    and z'0: "z' \<noteq> 0"
  shows "handleWheel st clientX deltaY =
           st\<lparr>zoom := Fin z',
              panOffset := Fin (max 0 (min (T - T / z') (p + f * (T / z) - f * (T / z'))))\<rparr>"
proof -
  have d: "(if jgt deltaY (Fin 0) then Fin 0.8 else Fin 1.25) =
           Fin (if jgt deltaY (Fin 0) then 0.8 else 1.25)"
    by simp
  have nz: "Math_max (Fin 1) (Math_min (Fin 20) (jmul (zoom st)
              (if jgt deltaY (Fin 0) then Fin 0.8 else Fin 1.25))) = Fin z'"
    unfolding d z using z' by simp
  have vis: "visibleDuration st = Fin (T / z)"
    using T z z0 by (simp add: visibleDuration_def)
  show ?thesis
    unfolding handleWheel_def Let_def ref option.case frac nz vis p T
    using z'0 by simp
qed

lemma wheel_frame:
  "\<exists>z' pan'. handleWheel st clientX deltaY = st\<lparr>zoom := z', panOffset := pan'\<rparr>"
proof (cases "timelineRef st")
  case None
  then have "handleWheel st clientX deltaY = st\<lparr>zoom := zoom st, panOffset := panOffset st\<rparr>"
    by (simp add: handleWheel_def)
  then show ?thesis by blast
next
  case (Some rect)
  then show ?thesis by (simp add: handleWheel_def Let_def) blast
qed

lemma multiple_le_iff:
  fixes iv x :: real
  assumes "0 < iv"
  shows "of_int k * iv \<le> x \<longleftrightarrow> k \<le> \<lfloor>x / iv\<rfloor>"
proof -
  have "of_int k * iv \<le> x \<longleftrightarrow> of_int k \<le> x / iv"
    using assms by (simp add: pos_le_divide_eq)
  also have "\<dots> \<longleftrightarrow> k \<le> \<lfloor>x / iv\<rfloor>"
    by (simp add: le_floor_iff)
  finally show ?thesis .
qed

lemma markersLoop_Fin:
  fixes iv e T :: real
  assumes iv: "0 < iv"
  shows "markersLoop (Fin (of_int k * iv)) (Fin e) (Fin iv) (Fin T) acc =
         Some (acc @ map (\<lambda>j. Fin (of_int j * iv))
                       (filter (\<lambda>j. 0 \<le> of_int j * iv \<and> of_int j * iv \<le> T)
                               [k..\<lfloor>(e + iv) / iv\<rfloor>]))"
proof (induction "nat (\<lfloor>(e + iv) / iv\<rfloor> + 1 - k)" arbitrary: k acc)
  case 0
  then have gt: "\<not> k \<le> \<lfloor>(e + iv) / iv\<rfloor>" by simp
  then have stop: "\<not> jle (Fin (of_int k * iv)) (jadd (Fin e) (Fin iv))"
    using multiple_le_iff [OF iv, of k "e + iv"] by simp
  from gt have "[k..\<lfloor>(e + iv) / iv\<rfloor>] = []" by simp
  with stop show ?case
    by (subst markersLoop.simps) simp
next
  case (Suc n)
  then have le: "k \<le> \<lfloor>(e + iv) / iv\<rfloor>" by simp
  then have go: "jle (Fin (of_int k * iv)) (jadd (Fin e) (Fin iv))"
    using multiple_le_iff [OF iv, of k "e + iv"] by simp
  have next_i: "jadd (Fin (of_int k * iv)) (Fin iv) = Fin (of_int (k + 1) * iv)"
    by (simp add: algebra_simps)
  from Suc.hyps(2) have n: "n = nat (\<lfloor>(e + iv) / iv\<rfloor> + 1 - (k + 1))" by simp
  from le have up: "[k..\<lfloor>(e + iv) / iv\<rfloor>] = k # [k + 1..\<lfloor>(e + iv) / iv\<rfloor>]"
    by (simp add: upto_rec1)
  show ?case
    by (subst markersLoop.simps) (simp only: go if_True next_i Suc.hyps(1) [OF n], simp add: up)
qed

lemma timeMarkers_Fin:
  fixes z p T iv :: real
  assumes z: "zoom st = Fin z" and z0: "z \<noteq> 0" and p: "panOffset st = Fin p"
    and T: "totalDuration st = Fin T"
    and iv: "markerInterval st = Fin iv" and ivpos: "0 < iv"
  shows "timeMarkers st =
         Some (map (\<lambda>j. Fin (of_int j * iv))
                 (filter (\<lambda>j. 0 \<le> of_int j * iv \<and> of_int j * iv \<le> T)
                         [\<lfloor>p / iv\<rfloor>..\<lfloor>(p + T / z + iv) / iv\<rfloor>]))"
proof -
  from ivpos have iv0: "iv \<noteq> 0" by simp
  have start: "jmul (Math_floor (jdiv (panOffset st) (Fin iv))) (Fin iv) = Fin (of_int \<lfloor>p / iv\<rfloor> * iv)"
    unfolding p using iv0 by simp
  have stop: "jadd (panOffset st) (visibleDuration st) = Fin (p + T / z)"
    unfolding visibleDuration_def p T z using z0 by simp
  show ?thesis
    unfolding timeMarkers_def Let_def iv start stop T
    using markersLoop_Fin [OF ivpos, of "\<lfloor>p / iv\<rfloor>" "p + T / z" T "[]"] by simp
qed

lemma markerInterval_Fin:
  "zoom st = Fin z \<Longrightarrow> totalDuration st = Fin T \<Longrightarrow>
   markerInterval st =
     Fin (if 4 \<le> z then 10000 else if 2 \<le> z then 30000 else if T \<le> 180000 then 30000 else 60000)"
  by (simp add: markerInterval_def)

lemma set_elemsL: "set (elemsL anc cs) = (\<Union>c \<in> set cs. set (elems anc c))"
  by (induction cs) auto

lemma elems_paths:
  "(chain, el) \<in> set (elemsL anc (childNodes n)) \<longleftrightarrow>
   (\<exists>path. path \<noteq> [] \<and> nodeAt n path = Some el \<and> isElement el \<and>
           chain = ancestorsAt n path @ anc)"
proof (induction n arbitrary: anc chain)
  case (Element name a cs)
  have step: "(chain, el) \<in> set (elems anc c) \<longleftrightarrow>
       (chain = anc \<and> el = c \<and> isElement c) \<or>
       (\<exists>path. path \<noteq> [] \<and> nodeAt c path = Some el \<and> isElement el \<and>
           chain = ancestorsAt c path @ (localName c, attributes c) # anc)"
    if c: "c \<in> set cs" for c
  proof (cases c)
    case (Element n' a' cs')
    with Element.IH [OF c, of chain "(n', a') # anc"] show ?thesis by auto
  qed (auto simp: neq_Nil_conv)
  show ?case
  proof
    assume "(chain, el) \<in> set (elemsL anc (childNodes (Element name a cs)))"
    then obtain c where c: "c \<in> set cs" and m: "(chain, el) \<in> set (elems anc c)"
      by (auto simp: set_elemsL)
    from c obtain i where i: "i < length cs" "cs ! i = c" by (auto simp: in_set_conv_nth)
    from m step [OF c] consider
        "chain = anc" "el = c" "isElement c"
      | path where "path \<noteq> []" "nodeAt c path = Some el" "isElement el"
          "chain = ancestorsAt c path @ (localName c, attributes c) # anc"
      by blast
    then show "\<exists>path. path \<noteq> [] \<and> nodeAt (Element name a cs) path = Some el \<and> isElement el \<and>
           chain = ancestorsAt (Element name a cs) path @ anc"
    proof cases
      case 1
      with i show ?thesis by (intro exI [of _ "[i]"]) simp
    next
      case 2
      from 2(1) obtain j rest where "path = j # rest" by (cases path) auto
      with 2 i show ?thesis by (intro exI [of _ "i # path"]) simp
    qed
  next
    assume "\<exists>path. path \<noteq> [] \<and> nodeAt (Element name a cs) path = Some el \<and> isElement el \<and>
           chain = ancestorsAt (Element name a cs) path @ anc"
    then obtain i rest where i: "i < length cs"
      and at: "nodeAt (cs ! i) rest = Some el" and el: "isElement el"
      and ch: "chain = ancestorsAt (Element name a cs) (i # rest) @ anc"
      by (auto simp: neq_Nil_conv split: if_splits)
    from i have c: "cs ! i \<in> set cs" by simp
    have "(chain, el) \<in> set (elems anc (cs ! i))"
    proof (cases rest)
      case Nil
      with at ch have "chain = anc \<and> el = cs ! i" by simp
      with el show ?thesis unfolding step [OF c] by simp
    next
      case (Cons j more)
      with at el ch have "rest \<noteq> [] \<and> nodeAt (cs ! i) rest = Some el \<and> isElement el \<and>
           chain = ancestorsAt (cs ! i) rest @ (localName (cs ! i), attributes (cs ! i)) # anc"
        by simp
      then show ?thesis unfolding step [OF c] by blast
    qed
    with c show "(chain, el) \<in> set (elemsL anc (childNodes (Element name a cs)))"
      by (auto simp: set_elemsL)
  qed
qed (auto simp: neq_Nil_conv)

lemma descendants_paths:
  "(chain, el) \<in> set (descendants p) \<longleftrightarrow>
   (\<exists>path. path \<noteq> [] \<and> nodeAt p path = Some el \<and> isElement el \<and> chain = ancestorsAt p path)"
  by (simp add: descendants_def elems_paths)

lemma select_span_begin_subset: "set (select_span_begin p) \<subseteq> set (descendants p)"
  unfolding select_span_begin_def by (rule filter_is_subset)

lemma select_span_begin_path:
  assumes "i < length (select_span_begin p)"
  shows "\<exists>path. path \<noteq> [] \<and> nodeAt p path = Some (snd (select_span_begin p ! i)) \<and>
               ancestorsAt p path = fst (select_span_begin p ! i)"
proof -
  obtain chain el where ce: "select_span_begin p ! i = (chain, el)"
    by (cases "select_span_begin p ! i")
  from assms have "select_span_begin p ! i \<in> set (select_span_begin p)" by (rule nth_mem)
  with select_span_begin_subset have "select_span_begin p ! i \<in> set (descendants p)" by blast
  with ce have "(chain, el) \<in> set (descendants p)" by simp
  then obtain path where "path \<noteq> []" "nodeAt p path = Some el" "chain = ancestorsAt p path"
    using descendants_paths [of chain el p] by blast
  with ce show ?thesis by auto
qed

lemma last_match_unique:
  assumes "c \<in> set xs" and "P c" and "\<forall>c' \<in> set xs. P c' \<longrightarrow> c' = c"
  shows "(case filter P (rev xs) of [] \<Rightarrow> None | d # _ \<Rightarrow> Some (f d)) = Some (f c)"
proof (cases "filter P (rev xs)")
  case Nil
  then have "\<forall>x \<in> set (rev xs). \<not> P x" by (simp add: filter_empty_conv)
  with assms(1,2) show ?thesis by simp
next
  case (Cons d ds)
  then have "d \<in> set (filter P (rev xs))" by simp
  then have "d \<in> set xs" "P d" by simp_all
  with assms(3) have "d = c" by blast
  with Cons show ?thesis by simp
qed

section \<open>The time parsing rule\<close>



section \<open>The parser never raises\<close>



section \<open>Background words\<close>

text \<open>
  C3. In every paragraph, the word emitted for a timed span has \<open>isBackground = true\<close>
  when an element strictly between the span and the paragraph carries the role \<open>x-bg\<close>,
  and has no \<open>isBackground\<close> otherwise. This holds word by word, so for sibling words of
  one line too. The chain of a span holds the elements the upward walk visits, the parent
  first, the paragraph left out: the elements on the path from the paragraph to the span.
\<close>

theorem word_background_flag:
  "i < length (select_span_begin p) \<Longrightarrow>
   length (words (lineOf tm p)) = length (select_span_begin p) \<and>
   (\<exists>path. path \<noteq> [] \<and> nodeAt p path = Some (snd (select_span_begin p ! i)) \<and>
           ancestorsAt p path = fst (select_span_begin p ! i)) \<and>
   isBackground (words (lineOf tm p) ! i) =
     (if \<exists>h \<in> set (fst (select_span_begin p ! i)). getAttribute (snd h) ''ttm:role'' = Some ''x-bg''
      then Some True else None)"
proof -
  assume i: "i < length (select_span_begin p)"
  have len: "length (words (lineOf tm p)) = length (select_span_begin p)"
    by (simp add: words_lineOf)
  from i have flag: "isBackground (words (lineOf tm p) ! i) =
     (if \<exists>h \<in> set (fst (select_span_begin p ! i)). getAttribute (snd h) ''ttm:role'' = Some ''x-bg''
      then Some True else None)"
    by (simp add: words_lineOf lineWord_def mkWord_def ancestorIsBackground_iff)
  from len select_span_begin_path [OF i] flag show ?thesis by blast
qed

text \<open>
  The example paragraph: its second word lies under a background element, its first
  does not.
\<close>

theorem word_background_flag_witness:
  "1 < length (select_span_begin exampleParagraph) \<and>
   isBackground (words (lineOf Map.empty exampleParagraph) ! 1) = Some True \<and>
   isBackground (words (lineOf Map.empty exampleParagraph) ! 0) = None"
proof -
  have l: "1 < length (select_span_begin exampleParagraph)" "0 < length (select_span_begin exampleParagraph)"
    by (simp_all add: select_span_begin_example)
  from word_background_flag [OF l(1), of Map.empty]
  have "isBackground (words (lineOf Map.empty exampleParagraph) ! 1) =
     (if \<exists>h \<in> set (fst (select_span_begin exampleParagraph ! 1)).
           getAttribute (snd h) ''ttm:role'' = Some ''x-bg''
      then Some True else None)"
    by blast
  then have 1: "isBackground (words (lineOf Map.empty exampleParagraph) ! 1) = Some True"
    by (simp add: select_span_begin_example getAttribute_def)
  from word_background_flag [OF l(2), of Map.empty]
  have "isBackground (words (lineOf Map.empty exampleParagraph) ! 0) =
     (if \<exists>h \<in> set (fst (select_span_begin exampleParagraph ! 0)).
           getAttribute (snd h) ''ttm:role'' = Some ''x-bg''
      then Some True else None)"
    by blast
  then have 0: "isBackground (words (lineOf Map.empty exampleParagraph) ! 0) = None"
    by (simp add: select_span_begin_example getAttribute_def)
  from l 1 0 show ?thesis by simp
qed

section \<open>Transliterations\<close>

text \<open>
  C4. A line whose key is \<open>k\<close> receives the text and words of the transliteration
  container whose \<open>for\<close> attribute is \<open>k\<close> (of the last such container, should several
  share \<open>k\<close>), wherever the container stands in the document; and a document whose
  containers lie in one run of children of the root and whose paragraphs lie in another
  parses to the same lines with the two runs in either order.
\<close>

theorem transliteration_join:
  "(parseFromString ttml = Inr doc \<and> i < length (select_p doc) \<and>
    getAttribute (attributes (select_p doc ! i)) ''itunes:key'' = Some k \<and> k \<noteq> [] \<longrightarrow>
      transliteration (parseTTML parseFromString ttml ! i) =
        (case filter (\<lambda>c. getAttribute (attributes c) ''for'' = Some k)
                     (rev (select_translit_text doc)) of
           [] \<Rightarrow> None
         | c # _ \<Rightarrow> Some (translitEntry c))) \<and>
   (parseFromString ttml = Inr doc \<and> i < length (select_p doc) \<and>
    getAttribute (attributes (select_p doc ! i)) ''itunes:key'' = Some k \<and> k \<noteq> [] \<and>
    c \<in> set (select_translit_text doc) \<and> getAttribute (attributes c) ''for'' = Some k \<and>
    (\<forall>c' \<in> set (select_translit_text doc).
        getAttribute (attributes c') ''for'' = Some k \<longrightarrow> c' = c) \<longrightarrow>
      transliteration (parseTTML parseFromString ttml ! i) =
        Some \<lparr> ttext = textContent c,
               twords = map (\<lambda>cs. mkWord (snd cs) None) (select_span_begin c) \<rparr>) \<and>
   (n \<noteq> ''p'' \<and>
    (\<forall>ce \<in> set (elemsL [(n, a)] xs). localName (snd ce) \<noteq> ''p'') \<and>
    (\<forall>ce \<in> set (elemsL [(n, a)] ys). \<not> isTranslitText ce) \<longrightarrow>
      parseTTML (\<lambda>t. Inr (Element n a (xs @ ys))) ttml =
      parseTTML (\<lambda>t. Inr (Element n a (ys @ xs))) ttml)"
proof -
  have last: "transliteration (parseTTML parseFromString ttml ! i) =
        (case filter (\<lambda>c. getAttribute (attributes c) ''for'' = Some k)
                     (rev (select_translit_text doc)) of
           [] \<Rightarrow> None
         | c # _ \<Rightarrow> Some (translitEntry c))"
    if h: "parseFromString ttml = Inr doc \<and> i < length (select_p doc) \<and>
      getAttribute (attributes (select_p doc ! i)) ''itunes:key'' = Some k \<and> k \<noteq> []"
  proof -
    from h have "parseTTML parseFromString ttml ! i =
                 lineOf (transliterationMap doc) (select_p doc ! i)"
      by (simp add: parseTTML_Inr)
    with h show ?thesis
      by (simp add: transliteration_lineOf transliterationMap_lookup)
  qed
  have only: "transliteration (parseTTML parseFromString ttml ! i) =
        Some \<lparr> ttext = textContent c,
               twords = map (\<lambda>cs. mkWord (snd cs) None) (select_span_begin c) \<rparr>"
    if h: "parseFromString ttml = Inr doc \<and> i < length (select_p doc) \<and>
      getAttribute (attributes (select_p doc ! i)) ''itunes:key'' = Some k \<and> k \<noteq> [] \<and>
      c \<in> set (select_translit_text doc) \<and> getAttribute (attributes c) ''for'' = Some k \<and>
      (\<forall>c' \<in> set (select_translit_text doc).
          getAttribute (attributes c') ''for'' = Some k \<longrightarrow> c' = c)"
  proof -
    from h have "(case filter (\<lambda>c. getAttribute (attributes c) ''for'' = Some k)
                     (rev (select_translit_text doc)) of
           [] \<Rightarrow> None
         | d # _ \<Rightarrow> Some (translitEntry d)) = Some (translitEntry c)"
      by (intro last_match_unique) blast+
    with last h show ?thesis by (simp add: translitEntry_def)
  qed
  have swap: "parseTTML (\<lambda>t. Inr (Element n a (xs @ ys))) ttml =
      parseTTML (\<lambda>t. Inr (Element n a (ys @ xs))) ttml"
    if h: "n \<noteq> ''p'' \<and>
      (\<forall>ce \<in> set (elemsL [(n, a)] xs). localName (snd ce) \<noteq> ''p'') \<and>
      (\<forall>ce \<in> set (elemsL [(n, a)] ys). \<not> isTranslitText ce)"
  proof -
    from h have px: "filter (\<lambda>el. localName el = ''p'') (map snd (elemsL [(n, a)] xs)) = []"
      by (auto simp: filter_empty_conv)
    from h have ty: "filter isTranslitText (elemsL [(n, a)] ys) = []"
      by (auto simp: filter_empty_conv)
    from h px have p: "select_p (Element n a (xs @ ys)) = select_p (Element n a (ys @ xs))"
      by (simp add: select_p_root elemsL_append)
    from ty have "select_translit_text (Element n a (xs @ ys)) =
                  select_translit_text (Element n a (ys @ xs))"
      by (simp add: select_translit_text_root elemsL_append)
    then have "transliterationMap (Element n a (xs @ ys)) =
               transliterationMap (Element n a (ys @ xs))"
      by (simp add: transliterationMap_def)
    with p show ?thesis by (simp add: parseTTML_Inr)
  qed
  from last only swap show ?thesis by blast
qed

text \<open>
  The example head and body under one root, the head first and the body first.
\<close>

theorem transliteration_join_witness:
  "transliteration (parseTTML (\<lambda>t. Inr (Element ''tt'' [] [exampleHead, exampleBody])) [] ! 0) =
     Some \<lparr> ttext = ''ha'',
            twords = [\<lparr> wbegin = Fin 0, wend = Fin 1000, wtext = ''ha'', isBackground = None \<rparr>] \<rparr> \<and>
   parseTTML (\<lambda>t. Inr (Element ''tt'' [] [exampleHead, exampleBody])) [] =
   parseTTML (\<lambda>t. Inr (Element ''tt'' [] [exampleBody, exampleHead])) []"
proof -
  let ?doc = "Element ''tt'' [] [exampleHead, exampleBody]"
  let ?c = "Element ''text'' [(''for'', ''L1'')]
              [Element ''span'' [(''begin'', ''0''), (''end'', ''1'')] [TextNode ''ha'']]"
  have h1: "(\<lambda>t. Inr ?doc) [] = Inr ?doc \<and> 0 < length (select_p ?doc) \<and>
            getAttribute (attributes (select_p ?doc ! 0)) ''itunes:key'' = Some ''L1'' \<and> ''L1'' \<noteq> []"
    by (simp add: select_p_example) (simp add: exampleParagraph_def getAttribute_def)
  have h2: "?c \<in> set (select_translit_text ?doc) \<and>
            getAttribute (attributes ?c) ''for'' = Some ''L1'' \<and>
            (\<forall>c' \<in> set (select_translit_text ?doc).
                getAttribute (attributes c') ''for'' = Some ''L1'' \<longrightarrow> c' = ?c)"
    by (simp add: select_translit_text_example getAttribute_def)
  have h3: "''tt'' \<noteq> ''p'' \<and>
    (\<forall>ce \<in> set (elemsL [(''tt'', [])] [exampleHead]). localName (snd ce) \<noteq> ''p'') \<and>
    (\<forall>ce \<in> set (elemsL [(''tt'', [])] [exampleBody]). \<not> isTranslitText ce)"
    by (simp add: exampleHead_def exampleBody_def exampleParagraph_def isTranslitText_def)
  note inst = transliteration_join
    [where parseFromString = "\<lambda>t. Inr ?doc" and ttml = "[]" and doc = ?doc and i = 0
       and k = "''L1''" and c = ?c and n = "''tt''" and a = "[]"
       and xs = "[exampleHead]" and ys = "[exampleBody]"]
  from inst h1
  have a: "transliteration (parseTTML (\<lambda>t. Inr ?doc) [] ! 0) =
        (case filter (\<lambda>c. getAttribute (attributes c) ''for'' = Some ''L1'')
                     (rev (select_translit_text ?doc)) of
           [] \<Rightarrow> None
         | c # _ \<Rightarrow> Some (translitEntry c))"
    by blast
  from inst h1 h2
  have b: "transliteration (parseTTML (\<lambda>t. Inr ?doc) [] ! 0) =
        Some \<lparr> ttext = textContent ?c,
               twords = map (\<lambda>cs. mkWord (snd cs) None) (select_span_begin ?c) \<rparr>"
    by blast
  from inst h3
  have c: "parseTTML (\<lambda>t. Inr (Element ''tt'' [] ([exampleHead] @ [exampleBody]))) [] =
      parseTTML (\<lambda>t. Inr (Element ''tt'' [] ([exampleBody] @ [exampleHead]))) []"
    by blast
  from b have "transliteration (parseTTML (\<lambda>t. Inr ?doc) [] ! 0) =
     Some \<lparr> ttext = ''ha'',
            twords = [\<lparr> wbegin = Fin 0, wend = Fin 1000, wtext = ''ha'', isBackground = None \<rparr>] \<rparr>"
    by (simp add: mkWord_def select_span_begin_def descendants_def isTimedSpan_def
                  getAttribute_def parse_defs)
  with c show ?thesis by simp
qed

section \<open>Clicks\<close>

text \<open>
  C5. A click at pointer fraction \<open>f\<close> of a mounted track, with a positive total
  duration, a finite non-zero zoom and no drag in progress or just ended: the time is
  \<open>panOffset + f * visibleDuration\<close> clamped to \<open>[0, totalDuration]\<close>; \<open>scrubPosition\<close>
  becomes that time; \<open>selectedLine\<close> becomes the index of the first line whose
  \<open>[begin, end]\<close> contains it, and stays as it was when no line does; nothing else
  changes. The click is ignored while dragging, after a drag, and when the total duration
  is 0. On the two lines \<open>[0, 2000]\<close> and \<open>[2000, 5000]\<close> at zoom 1, a click at one half
  selects line 1 and sets \<open>scrubPosition\<close> to 2500.
\<close>

theorem click_selects_first_line:
  "(timelineRef st = Some rect \<and>
    jdiv (jsub clientX (rect_left rect)) (rect_width rect) = Fin f \<and>
    totalDuration st = Fin T \<and> 0 < T \<and> zoom st = Fin z \<and> z \<noteq> 0 \<and> panOffset st = Fin p \<and>
    \<not> isDragging st \<and> \<not> didDragRef st \<and> t = max 0 (min T (p + f * (T / z))) \<longrightarrow>
      0 \<le> t \<and> t \<le> T \<and>
      scrubPosition (handleTimelineClick st clientX) = Some (Fin t) \<and>
      (\<forall>i. i < length (lines st) \<and>
            jle (lbegin (lines st ! i)) (Fin t) \<and> jle (Fin t) (lend (lines st ! i)) \<and>
            (\<forall>j < i. \<not> (jle (lbegin (lines st ! j)) (Fin t) \<and> jle (Fin t) (lend (lines st ! j)))) \<longrightarrow>
            selectedLine (handleTimelineClick st clientX) = Some i) \<and>
      ((\<forall>i < length (lines st).
            \<not> (jle (lbegin (lines st ! i)) (Fin t) \<and> jle (Fin t) (lend (lines st ! i)))) \<longrightarrow>
            selectedLine (handleTimelineClick st clientX) = selectedLine st) \<and>
      handleTimelineClick st clientX =
        st\<lparr>scrubPosition := Some (Fin t),
           selectedLine := selectedLine (handleTimelineClick st clientX)\<rparr>) \<and>
   (isDragging st \<or> didDragRef st \<or> totalDuration st = Fin 0 \<longrightarrow>
      handleTimelineClick st clientX = st) \<and>
   (\<forall>(track :: DOMRect) x. jdiv (jsub x (rect_left track)) (rect_width track) = Fin (1 / 2) \<longrightarrow>
      handleTimelineClick
        (initialTimeline [plainLine 0 2000, plainLine 2000 5000] (Some track)) x =
      (initialTimeline [plainLine 0 2000, plainLine 2000 5000] (Some track))
        \<lparr>scrubPosition := Some (Fin 2500), selectedLine := Some 1\<rparr>)"
proof (intro conjI impI allI)
  assume "isDragging st \<or> didDragRef st \<or> totalDuration st = Fin 0"
  then show "handleTimelineClick st clientX = st" by (rule click_ignored)
next
  fix track :: DOMRect and x
  assume "jdiv (jsub x (rect_left track)) (rect_width track) = Fin (1 / 2)"
  then show "handleTimelineClick
        (initialTimeline [plainLine 0 2000, plainLine 2000 5000] (Some track)) x =
      (initialTimeline [plainLine 0 2000, plainLine 2000 5000] (Some track))
        \<lparr>scrubPosition := Some (Fin 2500), selectedLine := Some 1\<rparr>"
    by (simp add: handleTimelineClick_def initialTimeline_def plainLine_def totalDuration_def
                  visibleDuration_def Math_max_list_def Math_max_def Let_def)
next
  assume h: "timelineRef st = Some rect \<and>
    jdiv (jsub clientX (rect_left rect)) (rect_width rect) = Fin f \<and>
    totalDuration st = Fin T \<and> 0 < T \<and> zoom st = Fin z \<and> z \<noteq> 0 \<and> panOffset st = Fin p \<and>
    \<not> isDragging st \<and> \<not> didDragRef st \<and> t = max 0 (min T (p + f * (T / z)))"
  then have eff: "handleTimelineClick st clientX =
           (case findIndex (\<lambda>line. jle (lbegin line) (Fin t) \<and> jle (Fin t) (lend line)) (lines st) of
              None \<Rightarrow> st\<lparr>scrubPosition := Some (Fin t)\<rparr>
            | Some i \<Rightarrow> st\<lparr>scrubPosition := Some (Fin t), selectedLine := Some i\<rparr>)"
    using click_effect [of st rect clientX f T z p t] by simp
  from h show "0 \<le> t" by simp
  from h show "t \<le> T" by simp
  from eff show "scrubPosition (handleTimelineClick st clientX) = Some (Fin t)"
    by (simp split: option.splits)
  from eff show "handleTimelineClick st clientX =
        st\<lparr>scrubPosition := Some (Fin t),
           selectedLine := selectedLine (handleTimelineClick st clientX)\<rparr>"
    by (simp split: option.splits)
  {
    fix i
    assume "i < length (lines st) \<and>
            jle (lbegin (lines st ! i)) (Fin t) \<and> jle (Fin t) (lend (lines st ! i)) \<and>
            (\<forall>j < i. \<not> (jle (lbegin (lines st ! j)) (Fin t) \<and> jle (Fin t) (lend (lines st ! j))))"
    then have "findIndex (\<lambda>line. jle (lbegin line) (Fin t) \<and> jle (Fin t) (lend line)) (lines st) = Some i"
      by (intro findIndex_first) auto
    with eff show "selectedLine (handleTimelineClick st clientX) = Some i" by simp
  }
  {
    assume "\<forall>i < length (lines st).
            \<not> (jle (lbegin (lines st ! i)) (Fin t) \<and> jle (Fin t) (lend (lines st ! i)))"
    then have "findIndex (\<lambda>line. jle (lbegin line) (Fin t) \<and> jle (Fin t) (lend line)) (lines st) = None"
      by (simp add: findIndex_None_iff)
    with eff show "selectedLine (handleTimelineClick st clientX) = selectedLine st" by simp
  }
qed

text \<open>
  The two-line document, clicked in the middle of a track 400 wide that starts at 10.
\<close>

theorem click_selects_first_line_witness:
  "totalDuration (initialTimeline [plainLine 0 2000, plainLine 2000 5000]
                    (Some \<lparr>rect_left = Fin 10, rect_width = Fin 400\<rparr>)) = Fin 5000 \<and>
   scrubPosition (handleTimelineClick
      (initialTimeline [plainLine 0 2000, plainLine 2000 5000]
         (Some \<lparr>rect_left = Fin 10, rect_width = Fin 400\<rparr>)) (Fin 210)) = Some (Fin 2500) \<and>
   selectedLine (handleTimelineClick
      (initialTimeline [plainLine 0 2000, plainLine 2000 5000]
         (Some \<lparr>rect_left = Fin 10, rect_width = Fin 400\<rparr>)) (Fin 210)) = Some 1"
proof -
  let ?r = "\<lparr>rect_left = Fin 10, rect_width = Fin 400\<rparr>"
  let ?st = "initialTimeline [plainLine 0 2000, plainLine 2000 5000] (Some ?r)"
  have T: "totalDuration ?st = Fin 5000" by (simp add: state_defs)
  have h: "timelineRef ?st = Some ?r \<and>
    jdiv (jsub (Fin 210) (rect_left ?r)) (rect_width ?r) = Fin (1 / 2) \<and>
    totalDuration ?st = Fin 5000 \<and> (0 :: real) < 5000 \<and> zoom ?st = Fin 1 \<and> (1 :: real) \<noteq> 0 \<and>
    panOffset ?st = Fin 0 \<and> \<not> isDragging ?st \<and> \<not> didDragRef ?st \<and>
    (2500 :: real) = max 0 (min 5000 (0 + 1 / 2 * (5000 / 1)))"
    using T by (simp add: initialTimeline_def)
  have c: "1 < length (lines ?st) \<and>
            jle (lbegin (lines ?st ! 1)) (Fin 2500) \<and> jle (Fin 2500) (lend (lines ?st ! 1)) \<and>
            (\<forall>j < 1. \<not> (jle (lbegin (lines ?st ! j)) (Fin 2500) \<and> jle (Fin 2500) (lend (lines ?st ! j))))"
    by (simp add: initialTimeline_def plainLine_def)
  from click_selects_first_line [of ?st ?r "Fin 210" "1 / 2" 5000 1 0 2500] h c
  have "scrubPosition (handleTimelineClick ?st (Fin 210)) = Some (Fin 2500)"
    and "selectedLine (handleTimelineClick ?st (Fin 210)) = Some 1"
    by blast+
  with T show ?thesis by simp
qed

section \<open>Wheel zoom\<close>

text \<open>
  C6. A wheel event at pointer fraction \<open>f\<close> of a mounted track, with a positive total
  duration and a finite non-zero zoom: the new zoom is the old one times 0.8 (for a
  positive \<open>deltaY\<close>) or 1.25, clamped to \<open>[1, 20]\<close>; the new \<open>panOffset\<close> is the offset \<open>a\<close>
  that keeps the time under the pointer, clamped to
  \<open>[0, totalDuration - newVisibleDuration]\<close>; and where \<open>a\<close> needs no clamping, the time
  under the pointer after the event is the time under it before.
\<close>

theorem wheel_zoom_is_pointer_anchored:
  "timelineRef st = Some rect \<and>
   jdiv (jsub clientX (rect_left rect)) (rect_width rect) = Fin f \<and>
   totalDuration st = Fin T \<and> 0 < T \<and> zoom st = Fin z \<and> z \<noteq> 0 \<and> panOffset st = Fin p \<and>
   z' = max 1 (min 20 (z * (if jgt deltaY (Fin 0) then 0.8 else 1.25))) \<and>
   a = p + f * (T / z) - f * (T / z') \<longrightarrow>
     handleWheel st clientX deltaY =
       st\<lparr>zoom := Fin z', panOffset := Fin (max 0 (min (T - T / z') a))\<rparr> \<and>
     1 \<le> z' \<and> z' \<le> 20 \<and>
     visibleDuration (handleWheel st clientX deltaY) = Fin (T / z') \<and>
     0 \<le> max 0 (min (T - T / z') a) \<and> max 0 (min (T - T / z') a) \<le> T - T / z' \<and>
     (0 \<le> a \<and> a \<le> T - T / z' \<longrightarrow>
        positionToTime (handleWheel st clientX deltaY) (Fin f) = positionToTime st (Fin f))"
proof (intro impI)
  assume h: "timelineRef st = Some rect \<and>
   jdiv (jsub clientX (rect_left rect)) (rect_width rect) = Fin f \<and>
   totalDuration st = Fin T \<and> 0 < T \<and> zoom st = Fin z \<and> z \<noteq> 0 \<and> panOffset st = Fin p \<and>
   z' = max 1 (min 20 (z * (if jgt deltaY (Fin 0) then 0.8 else 1.25))) \<and>
   a = p + f * (T / z) - f * (T / z')"
  then have zdef: "max 1 (min 20 (z * (if jgt deltaY (Fin 0) then 0.8 else 1.25))) = z'"
    and adef: "p + f * (T / z) - f * (T / z') = a"
    and T: "totalDuration st = Fin T" and Tpos: "0 < T"
    and z: "zoom st = Fin z" and z0: "z \<noteq> 0" and p: "panOffset st = Fin p"
    and ref: "timelineRef st = Some rect"
    and frac: "jdiv (jsub clientX (rect_left rect)) (rect_width rect) = Fin f"
    by blast+
  from zdef have z1: "1 \<le> z'" and z20: "z' \<le> 20"
    by (simp_all add: max_def min_def split: if_splits)
  from z1 have z'0: "z' \<noteq> 0" by simp
  have eff0: "handleWheel st clientX deltaY =
       st\<lparr>zoom := Fin z',
          panOffset := Fin (max 0 (min (T - T / z') (p + f * (T / z) - f * (T / z'))))\<rparr>"
    by (rule wheel_effect [OF ref frac T z z0 p zdef z'0])
  then have eff: "handleWheel st clientX deltaY =
       st\<lparr>zoom := Fin z', panOffset := Fin (max 0 (min (T - T / z') a))\<rparr>"
    unfolding adef .
  from z1 Tpos have "T / z' \<le> T"
    by (simp add: pos_divide_le_eq mult_le_cancel_left1)
  then have range: "0 \<le> T - T / z'" by simp
  have vis: "visibleDuration (handleWheel st clientX deltaY) = Fin (T / z')"
    unfolding eff using T z'0 by simp
  have anchored: "0 \<le> a \<and> a \<le> T - T / z' \<longrightarrow>
        positionToTime (handleWheel st clientX deltaY) (Fin f) = positionToTime st (Fin f)"
  proof
    assume "0 \<le> a \<and> a \<le> T - T / z'"
    then have m: "max 0 (min (T - T / z') a) = a" by simp
    have "positionToTime (handleWheel st clientX deltaY) (Fin f) = Fin (a + f * (T / z'))"
      unfolding positionToTime_def vis unfolding eff m by simp
    moreover have "positionToTime st (Fin f) = Fin (p + f * (T / z))"
      unfolding positionToTime_def visibleDuration_def T z p using z0 by simp
    moreover have "a + f * (T / z') = p + f * (T / z)"
      unfolding adef [symmetric] by simp
    ultimately show "positionToTime (handleWheel st clientX deltaY) (Fin f) = positionToTime st (Fin f)"
      by simp
  qed
  from range have bounds: "0 \<le> max 0 (min (T - T / z') a) \<and> max 0 (min (T - T / z') a) \<le> T - T / z'"
    by simp
  from eff z1 z20 vis bounds anchored
  show "handleWheel st clientX deltaY =
       st\<lparr>zoom := Fin z', panOffset := Fin (max 0 (min (T - T / z') a))\<rparr> \<and>
     1 \<le> z' \<and> z' \<le> 20 \<and>
     visibleDuration (handleWheel st clientX deltaY) = Fin (T / z') \<and>
     0 \<le> max 0 (min (T - T / z') a) \<and> max 0 (min (T - T / z') a) \<le> T - T / z' \<and>
     (0 \<le> a \<and> a \<le> T - T / z' \<longrightarrow>
        positionToTime (handleWheel st clientX deltaY) (Fin f) = positionToTime st (Fin f))"
    by blast
qed

text \<open>
  Zooming in at the middle of the track, from zoom 2 and offset 10000 on a document of
  100000 ms.
\<close>

theorem wheel_zoom_is_pointer_anchored_witness:
  "handleWheel
     ((initialTimeline [plainLine 0 100000] (Some \<lparr>rect_left = Fin 10, rect_width = Fin 400\<rparr>))
        \<lparr>zoom := Fin 2, panOffset := Fin 10000\<rparr>) (Fin 210) (Fin (- 100)) =
   (initialTimeline [plainLine 0 100000] (Some \<lparr>rect_left = Fin 10, rect_width = Fin 400\<rparr>))
        \<lparr>zoom := Fin (5 / 2), panOffset := Fin 15000\<rparr> \<and>
   positionToTime (handleWheel
     ((initialTimeline [plainLine 0 100000] (Some \<lparr>rect_left = Fin 10, rect_width = Fin 400\<rparr>))
        \<lparr>zoom := Fin 2, panOffset := Fin 10000\<rparr>) (Fin 210) (Fin (- 100))) (Fin (1 / 2)) =
   positionToTime
     ((initialTimeline [plainLine 0 100000] (Some \<lparr>rect_left = Fin 10, rect_width = Fin 400\<rparr>))
        \<lparr>zoom := Fin 2, panOffset := Fin 10000\<rparr>) (Fin (1 / 2))"
proof -
  let ?r = "\<lparr>rect_left = Fin 10, rect_width = Fin 400\<rparr>"
  let ?st = "(initialTimeline [plainLine 0 100000] (Some ?r))\<lparr>zoom := Fin 2, panOffset := Fin 10000\<rparr>"
  have T: "totalDuration ?st = Fin 100000" by (simp add: state_defs)
  have h: "timelineRef ?st = Some ?r \<and>
    jdiv (jsub (Fin 210) (rect_left ?r)) (rect_width ?r) = Fin (1 / 2) \<and>
    totalDuration ?st = Fin 100000 \<and> (0 :: real) < 100000 \<and> zoom ?st = Fin 2 \<and> (2 :: real) \<noteq> 0 \<and>
    panOffset ?st = Fin 10000 \<and>
    (5 / 2 :: real) = max 1 (min 20 (2 * (if jgt (Fin (- 100)) (Fin 0) then 0.8 else 1.25))) \<and>
    (15000 :: real) = 10000 + 1 / 2 * (100000 / 2) - 1 / 2 * (100000 / (5 / 2))"
    using T by (simp add: initialTimeline_def)
  have c: "(0 :: real) \<le> 15000 \<and> (15000 :: real) \<le> 100000 - 100000 / (5 / 2)" by simp
  from wheel_zoom_is_pointer_anchored
         [of ?st ?r "Fin 210" "1 / 2" 100000 2 10000 "5 / 2" "Fin (- 100)" 15000] h c
  have "handleWheel ?st (Fin 210) (Fin (- 100)) =
          ?st\<lparr>zoom := Fin (5 / 2),
              panOffset := Fin (max 0 (min (100000 - 100000 / (5 / 2)) 15000))\<rparr>"
    and "positionToTime (handleWheel ?st (Fin 210) (Fin (- 100))) (Fin (1 / 2)) =
         positionToTime ?st (Fin (1 / 2))"
    by blast+
  then show ?thesis by (simp add: initialTimeline_def)
qed

section \<open>Missing and invalid timing attributes\<close>




section \<open>A total duration of zero\<close>

text \<open>
  A line without timing gives a total duration of 0. A wheel event on its track still
  changes the zoom, from 1 to 1.25, and a mouse-down after that starts a drag.
\<close>

theorem wheel_zooms_at_zero_duration:
  "totalDuration (initialTimeline [plainLine 0 0]
                    (Some \<lparr>rect_left = Fin 10, rect_width = Fin 400\<rparr>)) = Fin 0 \<and>
   handleWheel (initialTimeline [plainLine 0 0]
                    (Some \<lparr>rect_left = Fin 10, rect_width = Fin 400\<rparr>)) (Fin 210) (Fin (- 100)) =
   (initialTimeline [plainLine 0 0] (Some \<lparr>rect_left = Fin 10, rect_width = Fin 400\<rparr>))
      \<lparr>zoom := Fin (5 / 4)\<rparr> \<and>
   handleMouseDown
     ((initialTimeline [plainLine 0 0] (Some \<lparr>rect_left = Fin 10, rect_width = Fin 400\<rparr>))
        \<lparr>zoom := Fin (5 / 4)\<rparr>) (Fin 210) =
   (initialTimeline [plainLine 0 0] (Some \<lparr>rect_left = Fin 10, rect_width = Fin 400\<rparr>))
      \<lparr>zoom := Fin (5 / 4), isDragging := True, dragStartRef := (Fin 210, Fin 0)\<rparr>"
  by (simp add: handleWheel_def handleMouseDown_def state_defs Let_def)

text \<open>
  C8, as the code has it. In a state whose total duration is 0: a click changes nothing;
  a mouse-down changes nothing when the zoom is at most 1; a wheel event changes nothing
  when the track is not mounted (as with no lines), changes at most \<open>zoom\<close> and
  \<open>panOffset\<close> otherwise, and leaves a \<open>panOffset\<close> of 0 at 0.
\<close>

theorem zero_duration_frame:
  "totalDuration st = Fin 0 \<longrightarrow>
     handleTimelineClick st clientX = st \<and>
     (jle (zoom st) (Fin 1) \<longrightarrow> handleMouseDown st clientX = st) \<and>
     (timelineRef st = None \<longrightarrow> handleWheel st clientX deltaY = st) \<and>
     (\<exists>z' pan'. handleWheel st clientX deltaY = st\<lparr>zoom := z', panOffset := pan'\<rparr>) \<and>
     (\<forall>rect f z. timelineRef st = Some rect \<and>
         jdiv (jsub clientX (rect_left rect)) (rect_width rect) = Fin f \<and>
         zoom st = Fin z \<and> z \<noteq> 0 \<and> panOffset st = Fin 0 \<longrightarrow>
         panOffset (handleWheel st clientX deltaY) = Fin 0)"
proof (intro impI conjI allI)
  assume T: "totalDuration st = Fin 0"
  then show "handleTimelineClick st clientX = st" by (simp add: click_ignored)
  show "\<exists>z' pan'. handleWheel st clientX deltaY = st\<lparr>zoom := z', panOffset := pan'\<rparr>"
    by (rule wheel_frame)
  {
    assume "jle (zoom st) (Fin 1)"
    then show "handleMouseDown st clientX = st" by (simp add: handleMouseDown_def)
  }
  {
    assume "timelineRef st = None"
    then show "handleWheel st clientX deltaY = st" by (simp add: handleWheel_def)
  }
  {
    fix rect f z
    assume h: "timelineRef st = Some rect \<and>
         jdiv (jsub clientX (rect_left rect)) (rect_width rect) = Fin f \<and>
         zoom st = Fin z \<and> z \<noteq> 0 \<and> panOffset st = Fin 0"
    define z' where "z' = max 1 (min 20 (z * (if jgt deltaY (Fin 0) then 0.8 else 1.25)))"
    then have zdef: "max 1 (min 20 (z * (if jgt deltaY (Fin 0) then 0.8 else 1.25))) = z'"
      by simp
    then have "1 \<le> z'" by (simp add: max_def min_def split: if_splits)
    then have z'0: "z' \<noteq> 0" by simp
    from h have ref: "timelineRef st = Some rect"
      and frac: "jdiv (jsub clientX (rect_left rect)) (rect_width rect) = Fin f"
      and z: "zoom st = Fin z" and z0: "z \<noteq> 0" and p: "panOffset st = Fin 0"
      by blast+
    show "panOffset (handleWheel st clientX deltaY) = Fin 0"
      unfolding wheel_effect [OF ref frac T z z0 p zdef z'0] by simp
  }
qed

text \<open>
  The initial state over one line without timing.
\<close>

theorem zero_duration_frame_witness:
  "totalDuration (initialTimeline [plainLine 0 0]
                    (Some \<lparr>rect_left = Fin 10, rect_width = Fin 400\<rparr>)) = Fin 0 \<and>
   handleTimelineClick (initialTimeline [plainLine 0 0]
                    (Some \<lparr>rect_left = Fin 10, rect_width = Fin 400\<rparr>)) (Fin 210) =
   initialTimeline [plainLine 0 0] (Some \<lparr>rect_left = Fin 10, rect_width = Fin 400\<rparr>) \<and>
   handleMouseDown (initialTimeline [plainLine 0 0]
                    (Some \<lparr>rect_left = Fin 10, rect_width = Fin 400\<rparr>)) (Fin 210) =
   initialTimeline [plainLine 0 0] (Some \<lparr>rect_left = Fin 10, rect_width = Fin 400\<rparr>) \<and>
   panOffset (handleWheel (initialTimeline [plainLine 0 0]
                    (Some \<lparr>rect_left = Fin 10, rect_width = Fin 400\<rparr>)) (Fin 210) (Fin (- 100))) = Fin 0"
proof -
  let ?r = "\<lparr>rect_left = Fin 10, rect_width = Fin 400\<rparr>"
  let ?st = "initialTimeline [plainLine 0 0] (Some ?r)"
  have T: "totalDuration ?st = Fin 0" by (simp add: state_defs)
  have z: "jle (zoom ?st) (Fin 1)" by (simp add: initialTimeline_def)
  have h: "timelineRef ?st = Some ?r \<and>
         jdiv (jsub (Fin 210) (rect_left ?r)) (rect_width ?r) = Fin (1 / 2) \<and>
         zoom ?st = Fin 1 \<and> (1 :: real) \<noteq> 0 \<and> panOffset ?st = Fin 0"
    by (simp add: initialTimeline_def)
  from zero_duration_frame [of ?st "Fin 210" "Fin (- 100)"] T z h
  have "handleTimelineClick ?st (Fin 210) = ?st"
    and "handleMouseDown ?st (Fin 210) = ?st"
    and "panOffset (handleWheel ?st (Fin 210) (Fin (- 100))) = Fin 0"
    by blast+
  with T show ?thesis by simp
qed

section \<open>Gridlines\<close>

text \<open>
  The emitted markers are not the markers of \<open>spec_isMarker\<close>. At zoom 4 and offset
  5000 on a document of 100000 ms the marker 0 is emitted, before the window; at zoom 1
  on a document of 60000 ms the trailing multiple 90000 is not, being past the end of the
  document.
\<close>

theorem gridline_markers_differ:
  "timeMarkers ((initialTimeline [plainLine 0 100000] None)\<lparr>zoom := Fin 4, panOffset := Fin 5000\<rparr>) =
     Some [Fin 0, Fin 10000, Fin 20000, Fin 30000, Fin 40000] \<and>
   \<not> spec_isMarker ((initialTimeline [plainLine 0 100000] None)\<lparr>zoom := Fin 4, panOffset := Fin 5000\<rparr>) (Fin 0) \<and>
   timeMarkers (initialTimeline [plainLine 0 60000] None) = Some [Fin 0, Fin 30000, Fin 60000] \<and>
   spec_isMarker (initialTimeline [plainLine 0 60000] None) (Fin 90000)"
  by (simp add: timeMarkers_def spec_isMarker_def markerInterval_def state_defs markersLoop.simps)

text \<open>
  C9, as the code has it. The interval is 10 s at zoom 4 and above, else 30 s at zoom 2
  and above, else 30 s when the total duration is at most 180 s, else 60 s. The loop
  ends, and the markers are, in increasing order, the multiples of the interval from the
  last one at or before \<open>panOffset\<close> up to \<open>panOffset + visibleDuration + interval\<close>,
  those outside \<open>[0, totalDuration]\<close> left out. Each is placed at \<open>timeToPosition\<close> of
  its time.
\<close>

theorem gridline_markers:
  "zoom st = Fin z \<and> z \<noteq> 0 \<and> panOffset st = Fin p \<and> totalDuration st = Fin T \<and>
   iv = (if 4 \<le> z then 10000 else if 2 \<le> z then 30000
         else if T \<le> 180000 then 30000 else 60000) \<longrightarrow>
     markerInterval st = Fin iv \<and>
     timeMarkers st =
       Some (map (\<lambda>j. Fin (of_int j * iv))
               (filter (\<lambda>j. 0 \<le> of_int j * iv \<and> of_int j * iv \<le> T)
                       [\<lfloor>p / iv\<rfloor>..\<lfloor>(p + T / z + iv) / iv\<rfloor>])) \<and>
     (\<forall>ms m. timeMarkers st = Some ms \<longrightarrow>
        (Fin m \<in> set ms \<longleftrightarrow>
           (\<exists>j :: int. m = of_int j * iv) \<and>
           of_int \<lfloor>p / iv\<rfloor> * iv \<le> m \<and> m \<le> p + T / z + iv \<and> 0 \<le> m \<and> m \<le> T)) \<and>
     markerPositions st = map_option (map (timeToPosition st)) (timeMarkers st) \<and>
     (T \<noteq> 0 \<longrightarrow> (\<forall>m. timeToPosition st (Fin m) = Fin ((m - p) / (T / z) * 100)))"
proof (intro impI)
  assume h: "zoom st = Fin z \<and> z \<noteq> 0 \<and> panOffset st = Fin p \<and> totalDuration st = Fin T \<and>
   iv = (if 4 \<le> z then 10000 else if 2 \<le> z then 30000
         else if T \<le> 180000 then 30000 else 60000)"
  then have z: "zoom st = Fin z" and z0: "z \<noteq> 0" and p: "panOffset st = Fin p"
    and T: "totalDuration st = Fin T"
    and ivdef: "(if 4 \<le> z then 10000 else if 2 \<le> z then 30000
         else if T \<le> 180000 then 30000 else 60000) = iv"
    by blast+
  from ivdef have ivpos: "0 < iv" by (auto split: if_splits)
  have iv: "markerInterval st = Fin iv"
    using markerInterval_Fin [OF z T] ivdef by simp
  have tm: "timeMarkers st =
       Some (map (\<lambda>j. Fin (of_int j * iv))
               (filter (\<lambda>j. 0 \<le> of_int j * iv \<and> of_int j * iv \<le> T)
                       [\<lfloor>p / iv\<rfloor>..\<lfloor>(p + T / z + iv) / iv\<rfloor>]))"
    by (rule timeMarkers_Fin [OF z z0 p T iv ivpos])
  have mem: "\<forall>ms m. timeMarkers st = Some ms \<longrightarrow>
        (Fin m \<in> set ms \<longleftrightarrow>
           (\<exists>j :: int. m = of_int j * iv) \<and>
           of_int \<lfloor>p / iv\<rfloor> * iv \<le> m \<and> m \<le> p + T / z + iv \<and> 0 \<le> m \<and> m \<le> T)"
  proof (intro allI impI)
    fix ms m
    assume "timeMarkers st = Some ms"
    with tm have ms: "ms = map (\<lambda>j. Fin (of_int j * iv))
               (filter (\<lambda>j. 0 \<le> of_int j * iv \<and> of_int j * iv \<le> T)
                       [\<lfloor>p / iv\<rfloor>..\<lfloor>(p + T / z + iv) / iv\<rfloor>])"
      by simp
    have lo: "\<And>j :: int. of_int \<lfloor>p / iv\<rfloor> * iv \<le> of_int j * iv \<longleftrightarrow> \<lfloor>p / iv\<rfloor> \<le> j"
      using ivpos by simp
    have hi: "\<And>j :: int. of_int j * iv \<le> p + T / z + iv \<longleftrightarrow> j \<le> \<lfloor>(p + T / z + iv) / iv\<rfloor>"
      by (rule multiple_le_iff [OF ivpos])
    show "Fin m \<in> set ms \<longleftrightarrow>
           (\<exists>j :: int. m = of_int j * iv) \<and>
           of_int \<lfloor>p / iv\<rfloor> * iv \<le> m \<and> m \<le> p + T / z + iv \<and> 0 \<le> m \<and> m \<le> T"
      unfolding ms using lo hi by (auto simp: image_iff)
  qed
  have pos: "markerPositions st = map_option (map (timeToPosition st)) (timeMarkers st)"
    by (simp add: markerPositions_def)
  have ttp: "T \<noteq> 0 \<longrightarrow> (\<forall>m. timeToPosition st (Fin m) = Fin ((m - p) / (T / z) * 100))"
    unfolding timeToPosition_def visibleDuration_def p T z using z0 by simp
  from iv tm mem pos ttp
  show "markerInterval st = Fin iv \<and>
     timeMarkers st =
       Some (map (\<lambda>j. Fin (of_int j * iv))
               (filter (\<lambda>j. 0 \<le> of_int j * iv \<and> of_int j * iv \<le> T)
                       [\<lfloor>p / iv\<rfloor>..\<lfloor>(p + T / z + iv) / iv\<rfloor>])) \<and>
     (\<forall>ms m. timeMarkers st = Some ms \<longrightarrow>
        (Fin m \<in> set ms \<longleftrightarrow>
           (\<exists>j :: int. m = of_int j * iv) \<and>
           of_int \<lfloor>p / iv\<rfloor> * iv \<le> m \<and> m \<le> p + T / z + iv \<and> 0 \<le> m \<and> m \<le> T)) \<and>
     markerPositions st = map_option (map (timeToPosition st)) (timeMarkers st) \<and>
     (T \<noteq> 0 \<longrightarrow> (\<forall>m. timeToPosition st (Fin m) = Fin ((m - p) / (T / z) * 100)))"
    by blast
qed

text \<open>
  Zoom 4 and offset 5000 on a document of 100000 ms.
\<close>

theorem gridline_markers_witness:
  "timeMarkers ((initialTimeline [plainLine 0 100000] None)\<lparr>zoom := Fin 4, panOffset := Fin 5000\<rparr>) =
     Some [Fin 0, Fin 10000, Fin 20000, Fin 30000, Fin 40000] \<and>
   markerPositions ((initialTimeline [plainLine 0 100000] None)\<lparr>zoom := Fin 4, panOffset := Fin 5000\<rparr>) =
     Some [Fin (- 20), Fin 20, Fin 60, Fin 100, Fin 140]"
proof -
  let ?st = "(initialTimeline [plainLine 0 100000] None)\<lparr>zoom := Fin 4, panOffset := Fin 5000\<rparr>"
  have T: "totalDuration ?st = Fin 100000" by (simp add: state_defs)
  have h: "zoom ?st = Fin 4 \<and> (4 :: real) \<noteq> 0 \<and> panOffset ?st = Fin 5000 \<and>
           totalDuration ?st = Fin 100000 \<and>
           (10000 :: real) = (if (4 :: real) \<le> 4 then 10000 else if (2 :: real) \<le> 4 then 30000
                              else if (100000 :: real) \<le> 180000 then 30000 else 60000)"
    using T by (simp add: initialTimeline_def)
  have nz: "(100000 :: real) \<noteq> 0" by simp
  from gridline_markers [of ?st 4 5000 100000 10000] h nz
  have tm: "timeMarkers ?st =
       Some (map (\<lambda>j. Fin (of_int j * 10000))
               (filter (\<lambda>j. 0 \<le> (of_int j :: real) * 10000 \<and> (of_int j :: real) * 10000 \<le> 100000)
                       [\<lfloor>(5000 :: real) / 10000\<rfloor>..\<lfloor>((5000 :: real) + 100000 / 4 + 10000) / 10000\<rfloor>]))"
    and pos: "markerPositions ?st = map_option (map (timeToPosition ?st)) (timeMarkers ?st)"
    and ttp: "\<forall>m. timeToPosition ?st (Fin m) = Fin ((m - 5000) / (100000 / 4) * 100)"
    by blast+
  have range: "[\<lfloor>(5000 :: real) / 10000\<rfloor>..\<lfloor>((5000 :: real) + 100000 / 4 + 10000) / 10000\<rfloor>] = [0, 1, 2, 3, 4]"
    by (simp add: upto.simps)
  from tm have tm': "timeMarkers ?st = Some [Fin 0, Fin 10000, Fin 20000, Fin 30000, Fin 40000]"
    unfolding range by simp
  from pos have "markerPositions ?st = Some [Fin (- 20), Fin 20, Fin 60, Fin 100, Fin 140]"
    unfolding tm' by (simp add: ttp)
  with tm' show ?thesis by simp
qed

section \<open>The role of the word element itself\<close>

text \<open>
  C10. A timed span that carries the role \<open>x-bg\<close> itself, with no such element
  strictly between it and its paragraph, is emitted without \<open>isBackground\<close>: the walk
  starts at the parent of the span.
\<close>

theorem word_own_role_ignored:
  "i < length (select_span_begin p) \<Longrightarrow>
   getAttribute (attributes (snd (select_span_begin p ! i))) ''ttm:role'' = Some ''x-bg'' \<Longrightarrow>
   \<forall>h \<in> set (fst (select_span_begin p ! i)). getAttribute (snd h) ''ttm:role'' \<noteq> Some ''x-bg'' \<Longrightarrow>
   isBackground (words (lineOf tm p) ! i) = None"
  by (simp add: words_lineOf lineWord_def mkWord_def ancestorIsBackground_iff)

text \<open>
  The third word of the example paragraph carries the role itself.
\<close>

theorem word_own_role_ignored_witness:
  "2 < length (select_span_begin exampleParagraph) \<and>
   getAttribute (attributes (snd (select_span_begin exampleParagraph ! 2))) ''ttm:role'' = Some ''x-bg'' \<and>
   isBackground (words (lineOf Map.empty exampleParagraph) ! 2) = None"
proof -
  have l: "2 < length (select_span_begin exampleParagraph)"
    by (simp add: select_span_begin_example)
  have r: "getAttribute (attributes (snd (select_span_begin exampleParagraph ! 2))) ''ttm:role'' = Some ''x-bg''"
    by (simp add: select_span_begin_example getAttribute_def)
  have c: "\<forall>h \<in> set (fst (select_span_begin exampleParagraph ! 2)). getAttribute (snd h) ''ttm:role'' \<noteq> Some ''x-bg''"
    by (simp add: select_span_begin_example)
  from word_own_role_ignored [OF l r c, of Map.empty] l r show ?thesis by simp
qed

end
